theory Spec2Isabelle
  imports Main "HOL-Library.AList"
begin

section \<open>The slab of \<^verbatim>\<open>src/old/js/lib/slab.js\<close>\<close>

text \<open>
  A slab stores memos, indexes them by id, by record and by parent, keeps them in a
  doubly linked LRU list and tracks peerings. The model follows the JavaScript
  statement by statement. What JavaScript does beyond returning a value is explicit:
  \<^item> a memo object is its immutable value (\<open>id\<close>, \<open>rid\<close>, \<open>parents\<close>,
    \<open>desiredReplicas()\<close>); two objects of the same value are the same object. The
    mutable fields \<open>_newer\<close> and \<open>_older\<close> of the memo objects are the maps
    \<open>newer\<close> and \<open>older\<close> of the slab, from a memo to the memo it links to;
  \<^item> an exception is a value: a function that can throw returns what was thrown
    together with the slab as the throw left it (JavaScript does not roll back);
  \<^item> the mesh, the record observers, \<open>memo.evicting\<close> and the console are outside
    the slab: every call to them is appended to \<open>calls\<close>, and the one value the slab
    reads back, the answer of \<open>mesh.getAcceptingSlabIDs\<close>, is a function of the mesh.
    They are assumed not to call back into this slab while it runs;
  \<^item> a promise reaction (\<open>.then\<close>, \<open>.catch\<close>) runs after the current synchronous
    code: it is appended to \<open>jobs\<close>, and \<open>settle\<close> runs the queue;
  \<^item> a plain object used as a dictionary is a map, or an association list in insertion
    order where the source iterates over its keys. Keys are assumed not to be names of
    \<open>Object.prototype\<close>, nor integer-like where the key order is observed.
\<close>

subsection \<open>Data\<close>

type_synonym mid = string
type_synonym rcid = string
type_synonym sid = string

record memo =
  memo_id :: mid
  rid :: rcid
  parents :: "mid list"
  desiredReplicas :: int

text \<open>A subscribed record object: its \<open>id\<close> and the identity of the object.\<close>

record record_obj =
  record_id :: rcid
  handle :: nat

datatype js_error = TypeError | Thrown string

type_synonym changes = "(sid \<times> (mid \<times> int) list) list"

datatype call =
    Mesh_registerSlab sid
  | Mesh_sendPeeringChanges sid changes
  | Mesh_getAcceptingSlabIDs "sid list" int
  | Mesh_pushMemoToSlab sid sid memo
  | Record_addedMemos record_obj "memo list"
  | Memo_evicting memo bool
  | Console_error string
  | Console_error_value js_error

text \<open>How the promise of \<open>checkMemoReplicationFactor\<close> is settled.\<close>

datatype settled = Fulfilled_undefined | Fulfilled_true | Rejected js_error

datatype job = Evict_then settled memo | Put_catch settled

record mesh =
  getAcceptingSlabIDs :: "sid list \<Rightarrow> int \<Rightarrow> sid list"

record ref_peering =
  memos :: "mid list"
  remotes :: "(sid \<times> int) list"

record slab =
  slab_id :: sid
  child_increment :: nat
  memos_by_id :: "mid \<rightharpoonup> memo"
  memo_ids_by_parent :: "mid \<rightharpoonup> mid"
  memo_ids_by_record :: "rcid \<rightharpoonup> mid list"
  records_by_id :: "rcid \<rightharpoonup> record_obj list"
  slab_size :: int
  quota :: int
  limit :: int
  mesh_of :: mesh
  local_peerings :: "mid \<rightharpoonup> mid list"
  ref_peerings :: "mid \<rightharpoonup> ref_peering"
  head :: "memo option"
  tail :: "memo option"
  newer :: "memo \<rightharpoonup> memo"
  older :: "memo \<rightharpoonup> memo"
  calls :: "call list"
  jobs :: "job list"

text \<open>The argument of \<open>evictMemo\<close> and \<open>killMemo\<close>: a string id or a memo object.\<close>

datatype memo_arg = ById mid | ByObj memo

subsection \<open>Truthiness\<close>

text \<open>A string is falsy when it is empty, a number when it is 0, \<open>undefined\<close> always.\<close>

definition truthy_str :: "string option \<Rightarrow> bool" where
  "truthy_str v = (case v of None \<Rightarrow> False | Some str \<Rightarrow> str \<noteq> [])"

definition truthy_num :: "int option \<Rightarrow> bool" where
  "truthy_num v = (case v of None \<Rightarrow> False | Some n \<Rightarrow> n \<noteq> 0)"

definition or_empty :: "'a list option \<Rightarrow> 'a list" where
  "or_empty v = (case v of None \<Rightarrow> [] | Some l \<Rightarrow> l)"

subsection \<open>Construction\<close>

record slab_args =
  arg_id :: "string option"
  arg_mesh :: "mesh option"
  arg_quota :: "int option"
  arg_limit :: "int option"

definition or_default :: "int option \<Rightarrow> int \<Rightarrow> int" where
  "or_default v d = (if truthy_num v then the v else d)"

text \<open>
  \<open>Slab slab_increment args\<close>: the constructor, given the module variable
  \<open>slab_increment\<close>; \<open>None\<close> is an argument that is not an object. It returns the
  module variable as the constructor leaves it: the only statement that writes it
  (\<open>++slab_increment\<close>) is commented out in the source.
\<close>

definition Slab :: "int \<Rightarrow> slab_args option \<Rightarrow> int \<times> (js_error + slab)" where
  "Slab slab_increment args =
    (slab_increment,
     if slab_increment > 1296 then Inl (Thrown ''cannot create more than 1296 slabs'')
     else case args of
       None \<Rightarrow> Inl (Thrown ''must provide args'')
     | Some a \<Rightarrow>
        if \<not> truthy_str (arg_id a) then Inl (Thrown ''must provide slab id'')
        else case arg_mesh a of
          None \<Rightarrow> Inl (Thrown ''must provide mesh object'')
        | Some m \<Rightarrow>
           if length (the (arg_id a)) \<noteq> 1
           then Inl (Thrown (''sanity error '' @ the (arg_id a)))
           else Inr \<lparr> slab_id = the (arg_id a), child_increment = 0,
                  memos_by_id = Map.empty, memo_ids_by_parent = Map.empty,
                  memo_ids_by_record = Map.empty, records_by_id = Map.empty,
                  slab_size = 0,
                  quota = or_default (arg_quota a) 5,
                  limit = or_default (arg_limit a) 10,
                  mesh_of = m,
                  local_peerings = Map.empty, ref_peerings = Map.empty,
                  head = None, tail = None, newer = Map.empty, older = Map.empty,
                  calls = [Mesh_registerSlab (the (arg_id a))], jobs = [] \<rparr>)"

text \<open>A process that constructs slabs one after the other, from the given arguments.\<close>

fun construct_slabs :: "int \<Rightarrow> slab_args option list \<Rightarrow> int \<times> (js_error + slab) list" where
  "construct_slabs inc [] = (inc, [])"
| "construct_slabs inc (a # as) =
    (case Slab inc a of (inc1, r) \<Rightarrow>
       (case construct_slabs inc1 as of (inc2, rs) \<Rightarrow> (inc2, r # rs)))"

subsection \<open>Peering registry\<close>

text \<open>\<open>changes[remote] = changes[remote] || {}; changes[remote][memo_id] = state\<close>\<close>

definition add_change :: "changes \<Rightarrow> sid \<Rightarrow> mid \<Rightarrow> int \<Rightarrow> changes" where
  "add_change ch remote m st =
    AList.update remote (AList.update m st (or_empty (map_of ch remote))) ch"

text \<open>The inner loop of \<open>updateMemoPeerings\<close>, over the remotes given for one reference.\<close>

fun update_remotes ::
  "sid \<Rightarrow> mid \<Rightarrow> (sid \<times> int) list \<Rightarrow> (sid \<times> int) list \<times> changes \<Rightarrow> (sid \<times> int) list \<times> changes"
where
  "update_remotes me m [] acc = acc"
| "update_remotes me m ((remote, peer_state) # ps) (rem, ch) =
    (if remote \<noteq> me \<and> \<not> truthy_num (map_of rem remote)
     then update_remotes me m ps (AList.update remote peer_state rem, add_change ch remote m peer_state)
     else update_remotes me m ps (rem, ch))"

text \<open>The outer loop of \<open>updateMemoPeerings\<close>, over the referenced memo ids.\<close>

fun update_refs ::
  "mid \<Rightarrow> (mid \<times> (sid \<times> int) list) list \<Rightarrow> slab \<times> changes \<Rightarrow> slab \<times> changes"
where
  "update_refs m [] acc = acc"
| "update_refs m ((ref_memo_id, ps) # rest) (s, ch) =
    (let refs = or_empty (local_peerings s m);
         s1 = (if ref_memo_id \<in> set refs then s
               else s\<lparr>local_peerings := (local_peerings s)(m \<mapsto> refs @ [ref_memo_id])\<rparr>);
         r = (case ref_peerings s1 ref_memo_id of
                None \<Rightarrow> \<lparr>memos = [], remotes = []\<rparr> | Some r0 \<Rightarrow> r0);
         r1 = (if m \<in> set (memos r) then r else r\<lparr>memos := memos r @ [m]\<rparr>);
         (rem, ch1) = update_remotes (slab_id s1) m ps (remotes r1, ch);
         s2 = s1\<lparr>ref_peerings := (ref_peerings s1)(ref_memo_id \<mapsto> r1\<lparr>remotes := rem\<rparr>)\<rparr>
     in update_refs m rest (s2, ch1))"

definition updateMemoPeerings ::
  "slab \<Rightarrow> memo \<Rightarrow> (mid \<times> (sid \<times> int) list) list \<Rightarrow> bool \<Rightarrow> slab"
where
  "updateMemoPeerings s memo peerings silent =
    (let s0 = s\<lparr>local_peerings :=
                 (local_peerings s)(memo_id memo \<mapsto> or_empty (local_peerings s (memo_id memo)))\<rparr>;
         (s1, ch) = update_refs (memo_id memo) peerings (s0, [])
     in if \<not> silent \<and> ch \<noteq> []
        then s1\<lparr>calls := calls s1 @ [Mesh_sendPeeringChanges (slab_id s1) ch]\<rparr>
        else s1)"

definition registerMemoPeering :: "slab \<Rightarrow> memo \<Rightarrow> mid \<Rightarrow> sid \<Rightarrow> int \<Rightarrow> bool \<Rightarrow> slab" where
  "registerMemoPeering s memo ref_memo_id remote_slab_id peer_state silent =
    updateMemoPeerings s memo [(ref_memo_id, [(remote_slab_id, peer_state)])] silent"

text \<open>
  The loop of \<open>deregisterPeeringForMemo\<close>. \<open>me.ref_peerings[ref_memo_id]\<close> is read
  without a check: when it is \<open>undefined\<close>, \<open>r.memos\<close> throws a TypeError.
\<close>

fun deregister_refs :: "mid \<Rightarrow> mid list \<Rightarrow> slab \<times> changes \<Rightarrow> js_error option \<times> slab \<times> changes" where
  "deregister_refs m [] (s, ch) = (None, s, ch)"
| "deregister_refs m (ref_memo_id # rest) (s, ch) =
    (case ref_peerings s ref_memo_id of
       None \<Rightarrow> (Some TypeError, s, ch)
     | Some r \<Rightarrow>
        (let ms = filter (\<lambda>i. i \<noteq> m) (memos r) in
         if ms = []
         then deregister_refs m rest
                (s\<lparr>ref_peerings := (ref_peerings s)(ref_memo_id := None)\<rparr>,
                 fold (\<lambda>remote c. add_change c remote m 0) (map fst (remotes r)) ch)
         else deregister_refs m rest
                (s\<lparr>ref_peerings := (ref_peerings s)(ref_memo_id \<mapsto> r\<lparr>memos := ms\<rparr>)\<rparr>, ch)))"

definition deregisterPeeringForMemo :: "slab \<Rightarrow> memo \<Rightarrow> js_error option \<times> slab" where
  "deregisterPeeringForMemo s memo =
    (case deregister_refs (memo_id memo) (or_empty (local_peerings s (memo_id memo))) (s, []) of
       (Some e, s1, ch) \<Rightarrow> (Some e, s1)
     | (None, s1, ch) \<Rightarrow>
        (None, s1\<lparr>local_peerings := (local_peerings s1)(memo_id memo := None),
                  calls := calls s1 @ [Mesh_sendPeeringChanges (slab_id s1) ch]\<rparr>))"

text \<open>\<open>getMemoPeers\<close>: \<open>None\<close> is the \<open>null\<close> it returns for an unknown memo id.\<close>

definition getMemoPeers :: "slab \<Rightarrow> mid \<Rightarrow> bool \<Rightarrow> sid list option" where
  "getMemoPeers s i has_memo =
    (case ref_peerings s i of
       None \<Rightarrow> None
     | Some r \<Rightarrow>
        Some (map fst (filter (\<lambda>(remote, st). if has_memo then st = 2 else st \<noteq> 0) (remotes r))))"

subsection \<open>Replication guard\<close>

text \<open>
  The executor of the promise runs synchronously. \<open>if (desired <= 0) success();\<close>
  settles the promise with \<open>undefined\<close> and does not return: the statements after it
  still run, and only their later \<open>success(true)\<close>, or their TypeError on
  \<open>peers.concat\<close> when \<open>getMemoPeers\<close> gave \<open>null\<close>, comes too late to change the outcome.
\<close>

definition checkMemoReplicationFactor :: "slab \<Rightarrow> memo \<Rightarrow> settled \<times> slab" where
  "checkMemoReplicationFactor s memo =
    (let desired = desiredReplicas memo in
     case getMemoPeers s (memo_id memo) True of
       None \<Rightarrow> (if desired \<le> 0 then Fulfilled_undefined else Rejected TypeError, s)
     | Some peers \<Rightarrow>
        (let excluded = peers @ [slab_id s];
             slab_ids = getAcceptingSlabIDs (mesh_of s) excluded desired;
             s1 = s\<lparr>calls := calls s @ [Mesh_getAcceptingSlabIDs excluded desired]
                        @ map (\<lambda>to_slab_id. Mesh_pushMemoToSlab (slab_id s) to_slab_id memo) slab_ids\<rparr>
         in (if desired \<le> 0 then Fulfilled_undefined else Fulfilled_true, s1)))"

subsection \<open>Eviction and kill\<close>

definition resolve :: "slab \<Rightarrow> memo_arg \<Rightarrow> memo option" where
  "resolve s a = (case a of ById i \<Rightarrow> memos_by_id s i | ByObj m \<Rightarrow> Some m)"

text \<open>\<open>evictMemo\<close> throws on an unknown id; the kill is left to the \<open>.then\<close> reaction.\<close>

definition evictMemo :: "slab \<Rightarrow> memo_arg \<Rightarrow> js_error option \<times> slab" where
  "evictMemo s a =
    (case resolve s a of
       None \<Rightarrow> (Some (Thrown ''attempted to evict invalid memo''), s)
     | Some memo \<Rightarrow>
        (let s1 = s\<lparr>calls := calls s @ [Memo_evicting memo True]\<rparr>;
             (res, s2) = checkMemoReplicationFactor s1 memo
         in (None, s2\<lparr>jobs := jobs s2 @ [Evict_then res memo]\<rparr>)))"

text \<open>\<open>while (memo && ct--)\<close>, with \<open>ct\<close> a positive integer.\<close>

fun evict_loop :: "nat \<Rightarrow> memo option \<Rightarrow> slab \<Rightarrow> slab" where
  "evict_loop 0 m s = s"
| "evict_loop (Suc ct) None s = s"
| "evict_loop (Suc ct) (Some memo) s =
    (let s1 = snd (evictMemo s (ByObj memo)) in evict_loop ct (newer s1 memo) s1)"

definition evictMemos :: "slab \<Rightarrow> slab" where
  "evictMemos s =
    (let ct = slab_size s - quota s in
     if ct \<le> 0 then s else evict_loop (nat ct) (head s) s)"

text \<open>\<open>index = mbr.indexOf(x); mbr.splice(index, 1)\<close>: index \<open>-1\<close> removes the last element.\<close>

definition splice_indexOf :: "'a \<Rightarrow> 'a list \<Rightarrow> 'a list" where
  "splice_indexOf x xs = (if x \<in> set xs then remove1 x xs else butlast xs)"

text \<open>
  One round of \<open>memo.parents.forEach\<close> in \<open>killMemo\<close>. \<open>putMemo\<close> stores a string (the
  child's id) under the parent id, and the round treats it as an array: when the entry
  is \<open>undefined\<close>, \<open>ref.indexOf\<close> throws; when it is a string, \<open>ref.indexOf(memo)\<close> is a
  number and \<open>ref.splice\<close> is \<open>undefined\<close>, so calling it throws. No round completes.
\<close>

definition kill_parent :: "slab \<Rightarrow> memo \<Rightarrow> mid \<Rightarrow> js_error + slab" where
  "kill_parent s memo parent_id =
    (case memo_ids_by_parent s parent_id of
       None \<Rightarrow> Inl TypeError
     | Some ref \<Rightarrow> Inl TypeError)"

fun kill_parents :: "memo \<Rightarrow> mid list \<Rightarrow> slab \<Rightarrow> js_error option \<times> slab" where
  "kill_parents memo [] s = (None, s)"
| "kill_parents memo (p # ps) s =
    (case kill_parent s memo p of
       Inl e \<Rightarrow> (Some e, s)
     | Inr s1 \<Rightarrow> kill_parents memo ps s1)"

definition unlink :: "slab \<Rightarrow> memo \<Rightarrow> slab" where
  "unlink s memo =
    (case (newer s memo, older s memo) of
       (Some nw, Some od) \<Rightarrow> s\<lparr>newer := (newer s)(od \<mapsto> nw), older := (older s)(nw \<mapsto> od)\<rparr>
     | (Some nw, None) \<Rightarrow> s\<lparr>older := (older s)(nw := None), head := Some nw\<rparr>
     | (None, Some od) \<Rightarrow> s\<lparr>newer := (newer s)(od := None), tail := Some od\<rparr>
     | (None, None) \<Rightarrow> s\<lparr>head := None, tail := None\<rparr>)"

datatype kill_outcome = Kill_invalid | Kill_aborted | Kill_done | Kill_threw js_error

definition killMemo :: "slab \<Rightarrow> memo_arg \<Rightarrow> kill_outcome \<times> slab" where
  "killMemo s a =
    (case resolve s a of
       None \<Rightarrow> (Kill_invalid, s\<lparr>calls := calls s @ [Console_error ''invalid memo'']\<rparr>)
     | Some memo \<Rightarrow>
        if memos_by_id s (memo_id memo) = None
        then (Kill_invalid, s\<lparr>calls := calls s @ [Console_error ''invalid memo'']\<rparr>)
        else if records_by_id s (rid memo) \<noteq> None
                \<and> \<not> truthy_str (memo_ids_by_parent s (memo_id memo))
        then (Kill_aborted, s)
        else
          (let s1 = s\<lparr>memos_by_id := (memos_by_id s)(memo_id memo := None)\<rparr> in
           case memo_ids_by_record s1 (rid memo) of
             None \<Rightarrow> (Kill_threw TypeError, s1)
           | Some mbr \<Rightarrow>
              (let s2 = s1\<lparr>memo_ids_by_record :=
                            (memo_ids_by_record s1)(rid memo \<mapsto> splice_indexOf (memo_id memo) mbr)\<rparr> in
               case kill_parents memo (parents memo) s2 of
                 (Some e, s3) \<Rightarrow> (Kill_threw e, s3)
               | (None, s3) \<Rightarrow>
                  (case deregisterPeeringForMemo s3 memo of
                     (Some e, s4) \<Rightarrow> (Kill_threw e, s4)
                   | (None, s4) \<Rightarrow>
                      (let s5 = unlink s4 memo
                       in (Kill_done, s5\<lparr>slab_size := slab_size s5 - 1\<rparr>))))))"

subsection \<open>Put and get\<close>

definition putMemo :: "slab \<Rightarrow> memo \<Rightarrow> slab" where
  "putMemo s memo =
    (if memos_by_id s (memo_id memo) \<noteq> None then s
     else
      (let s1 = s\<lparr>memos_by_id := (memos_by_id s)(memo_id memo \<mapsto> memo)\<rparr>;
           s2 = s1\<lparr>memo_ids_by_record :=
                     (memo_ids_by_record s1)(rid memo \<mapsto>
                        or_empty (memo_ids_by_record s1 (rid memo)) @ [memo_id memo])\<rparr>;
           s3 = s2\<lparr>memo_ids_by_parent :=
                     fold (\<lambda>parent_id m. m(parent_id \<mapsto> memo_id memo)) (parents memo)
                       (memo_ids_by_parent s2)\<rparr>;
           s4 = s3\<lparr>calls := calls s3
                     @ map (\<lambda>r. Record_addedMemos r [memo]) (or_empty (records_by_id s3 (rid memo)))\<rparr>;
           s5 = (case tail s4 of
                   Some t \<Rightarrow> s4\<lparr>newer := (newer s4)(t \<mapsto> memo), older := (older s4)(memo \<mapsto> t)\<rparr>
                 | None \<Rightarrow> s4\<lparr>head := Some memo\<rparr>);
           s6 = s5\<lparr>tail := Some memo\<rparr>;
           s7 = (if slab_size s6 = limit s6 then evictMemos s6
                 else s6\<lparr>slab_size := slab_size s6 + 1\<rparr>);
           s8 = registerMemoPeering s7 memo (memo_id memo) (slab_id s7) 2 False;
           (res, s9) = checkMemoReplicationFactor s8 memo
       in s9\<lparr>jobs := jobs s9 @ [Put_catch res]\<rparr>))"

definition getMemo :: "slab \<Rightarrow> mid \<Rightarrow> memo option \<times> slab" where
  "getMemo s i =
    (case memos_by_id s i of
       None \<Rightarrow> (None, s)
     | Some memo \<Rightarrow>
        if Some memo = tail s then (Some memo, s)
        else
         (let s1 = (case newer s memo of
                      Some nw \<Rightarrow>
                        (let s0 = (if Some memo = head s then s\<lparr>head := Some nw\<rparr> else s)
                         in s0\<lparr>older := (older s0)(nw := older s0 memo)\<rparr>)
                    | None \<Rightarrow> s);
              s2 = (case older s1 memo of
                      Some od \<Rightarrow> s1\<lparr>newer := (newer s1)(od := newer s1 memo)\<rparr>
                    | None \<Rightarrow> s1);
              s3 = s2\<lparr>newer := (newer s2)(memo := None)\<rparr>;
              s4 = s3\<lparr>older := (older s3)(memo := tail s3)\<rparr>;
              s5 = (case tail s4 of
                      Some t \<Rightarrow> s4\<lparr>newer := (newer s4)(t \<mapsto> memo)\<rparr>
                    | None \<Rightarrow> s4)
          in (Some memo, s5\<lparr>tail := Some memo\<rparr>)))"

subsection \<open>Records\<close>

definition hasMemosForRecord :: "slab \<Rightarrow> rcid \<Rightarrow> bool" where
  "hasMemosForRecord s r = (or_empty (memo_ids_by_record s r) \<noteq> [])"

text \<open>
  The loop of \<open>getHeadMemosForRecord\<close>. \<open>getMemo\<close> gives \<open>undefined\<close> for an id that is
  not in \<open>_memos_by_id\<close>, and \<open>memo.id\<close> then throws a TypeError.
\<close>

fun head_loop :: "mid list \<Rightarrow> memo list \<Rightarrow> slab \<Rightarrow> (js_error + memo list) \<times> slab" where
  "head_loop [] hs s = (Inr hs, s)"
| "head_loop (i # rest) hs s =
    (case getMemo s i of
       (None, s1) \<Rightarrow> (Inl TypeError, s1)
     | (Some memo, s1) \<Rightarrow>
        head_loop rest
          (if truthy_str (memo_ids_by_parent s1 (memo_id memo)) then hs else hs @ [memo]) s1)"

definition getHeadMemosForRecord :: "slab \<Rightarrow> rcid \<Rightarrow> (js_error + memo list) \<times> slab" where
  "getHeadMemosForRecord s r = head_loop (or_empty (memo_ids_by_record s r)) [] s"

definition getHeadMemoIDsForRecord :: "slab \<Rightarrow> rcid \<Rightarrow> (js_error + mid list) \<times> slab" where
  "getHeadMemoIDsForRecord s r =
    (case getHeadMemosForRecord s r of
       (Inl e, s1) \<Rightarrow> (Inl e, s1)
     | (Inr hs, s1) \<Rightarrow> (Inr (map memo_id hs), s1))"

definition subscribeRecord :: "slab \<Rightarrow> record_obj \<Rightarrow> slab" where
  "subscribeRecord s r =
    (let records = or_empty (records_by_id s (record_id r)) in
     s\<lparr>records_by_id := (records_by_id s)(record_id r \<mapsto>
          (if r \<in> set records then records else records @ [r]))\<rparr>)"

text \<open>
  \<open>dumpMemoIds\<close> walks \<open>_older\<close> from the tail. The walk need not end (the links can
  form a cycle), so it is a partial function: \<open>None\<close> is a walk that never returns.
\<close>

partial_function (option) dump_loop :: "slab \<Rightarrow> memo option \<Rightarrow> mid list \<Rightarrow> mid list option" where
  "dump_loop s m ids =
    (case m of
       None \<Rightarrow> Some ids
     | Some memo \<Rightarrow> dump_loop s (older s memo) (ids @ [memo_id memo]))"

definition dumpMemoIds :: "slab \<Rightarrow> mid list option" where
  "dumpMemoIds s = dump_loop s (tail s) []"

subsection \<open>Promise reactions\<close>

text \<open>
  The reaction of \<open>evictMemo\<close> kills the memo when the promise was fulfilled with a
  truthy value; an exception of \<open>killMemo\<close> inside it is an unhandled rejection and
  leaves the slab as the throw left it. The reaction of \<open>putMemo\<close> logs a rejection.
\<close>

fun run_job :: "job \<Rightarrow> slab \<Rightarrow> slab" where
  "run_job (Evict_then Fulfilled_true memo) s = snd (killMemo s (ByObj memo))"
| "run_job (Evict_then Fulfilled_undefined memo) s = s"
| "run_job (Evict_then (Rejected e) memo) s = s"
| "run_job (Put_catch (Rejected e)) s = s\<lparr>calls := calls s @ [Console_error_value e]\<rparr>"
| "run_job (Put_catch Fulfilled_true) s = s"
| "run_job (Put_catch Fulfilled_undefined) s = s"

text \<open>Runs the queued reactions, first in first out: the slab at its next quiescent point.\<close>

definition settle :: "slab \<Rightarrow> slab" where
  "settle s = fold run_job (jobs s) (s\<lparr>jobs := []\<rparr>)"

subsection \<open>The LRU list read as a list\<close>

text \<open>
  \<open>lru_list s xs\<close>: the links of the slab spell the list \<open>xs\<close>, oldest memo first:
  \<open>head\<close> is its first memo, \<open>tail\<close> its last, \<open>_newer\<close> leads from each memo to the
  next and \<open>_older\<close> back, and both end in \<open>undefined\<close>.
\<close>

fun chain :: "('a \<rightharpoonup> 'a) \<Rightarrow> 'a list \<Rightarrow> bool" where
  "chain f [] = True"
| "chain f [x] = True"
| "chain f (x # y # zs) = (f x = Some y \<and> chain f (y # zs))"

definition first_opt :: "'a list \<Rightarrow> 'a option" where
  "first_opt xs = (case xs of [] \<Rightarrow> None | x # _ \<Rightarrow> Some x)"

definition ends_at :: "('a \<rightharpoonup> 'a) \<Rightarrow> 'a option \<Rightarrow> bool" where
  "ends_at f e = (case e of None \<Rightarrow> True | Some x \<Rightarrow> f x = None)"

definition lru_list :: "slab \<Rightarrow> memo list \<Rightarrow> bool" where
  "lru_list s xs =
    (distinct xs \<and> head s = first_opt xs \<and> tail s = first_opt (rev xs)
     \<and> chain (newer s) xs \<and> ends_at (newer s) (first_opt (rev xs))
     \<and> chain (older s) (rev xs) \<and> ends_at (older s) (first_opt xs))"

text \<open>The memos that \<open>evictMemo\<close> was called on, in the order of the calls.\<close>

fun evicting_calls :: "call list \<Rightarrow> memo list" where
  "evicting_calls [] = []"
| "evicting_calls (Memo_evicting memo flag # cs) = memo # evicting_calls cs"
| "evicting_calls (c # cs) = evicting_calls cs"

subsection \<open>Slabs and memos of the scenarios\<close>

definition mesh_none :: mesh where
  "mesh_none = \<lparr>getAcceptingSlabIDs = (\<lambda>excluded desired. [])\<rparr>"

definition args_A :: slab_args where
  "args_A = \<lparr>arg_id = Some ''A'', arg_mesh = Some mesh_none, arg_quota = Some 2, arg_limit = Some 3\<rparr>"

text \<open>The slab that \<open>new Slab({id: 'A', mesh: mesh, quota: 2, limit: 3})\<close> constructs.\<close>

definition slab_A :: slab where
  "slab_A = \<lparr> slab_id = ''A'', child_increment = 0,
      memos_by_id = Map.empty, memo_ids_by_parent = Map.empty,
      memo_ids_by_record = Map.empty, records_by_id = Map.empty,
      slab_size = 0, quota = 2, limit = 3, mesh_of = mesh_none,
      local_peerings = Map.empty, ref_peerings = Map.empty,
      head = None, tail = None, newer = Map.empty, older = Map.empty,
      calls = [Mesh_registerSlab ''A''], jobs = [] \<rparr>"

definition mk_memo :: "mid \<Rightarrow> rcid \<Rightarrow> mid list \<Rightarrow> int \<Rightarrow> memo" where
  "mk_memo i r ps d = \<lparr>memo_id = i, rid = r, parents = ps, desiredReplicas = d\<rparr>"

text \<open>Four memos of distinct records, without parents, \<open>desiredReplicas() = 0\<close>.\<close>

definition m1 :: memo where "m1 = mk_memo ''m1'' ''R1'' [] 0"
definition m2 :: memo where "m2 = mk_memo ''m2'' ''R2'' [] 0"
definition m3 :: memo where "m3 = mk_memo ''m3'' ''R3'' [] 0"
definition m4 :: memo where "m4 = mk_memo ''m4'' ''R4'' [] 0"

text \<open>The same with \<open>desiredReplicas() = 1\<close>.\<close>

definition k1 :: memo where "k1 = mk_memo ''k1'' ''R1'' [] 1"
definition k2 :: memo where "k2 = mk_memo ''k2'' ''R2'' [] 1"
definition k3 :: memo where "k3 = mk_memo ''k3'' ''R3'' [] 1"
definition k4 :: memo where "k4 = mk_memo ''k4'' ''R4'' [] 1"

text \<open>A memo of record \<open>R\<close> and a second memo of \<open>R\<close> that cites it as its parent.\<close>

definition p1 :: memo where "p1 = mk_memo ''p1'' ''R'' [] 0"
definition c2 :: memo where "c2 = mk_memo ''c2'' ''R'' [''p1''] 0"

definition obs_R :: record_obj where
  "obs_R = \<lparr>record_id = ''R'', handle = 0\<rparr>"

text \<open>Scenario 1 of the specification: put m1, m2, m3, get m1, put m4.\<close>

definition basic_lru :: slab where
  "basic_lru = putMemo (snd (getMemo (putMemo (putMemo (putMemo slab_A m1) m2) m3) ''m1'')) m4"

text \<open>Four puts into the slab of quota 2 and limit 3.\<close>

definition four_puts :: "memo \<Rightarrow> memo \<Rightarrow> memo \<Rightarrow> memo \<Rightarrow> slab" where
  "four_puts a b c d = putMemo (putMemo (putMemo (putMemo slab_A a) b) c) d"

text \<open>The parent and its child, put in this order.\<close>

definition parent_child :: slab where
  "parent_child = putMemo (putMemo slab_A p1) c2"

text \<open>The child killed, then record \<open>R\<close> subscribed.\<close>

definition child_killed :: slab where
  "child_killed = snd (killMemo parent_child (ByObj c2))"

definition child_killed_subscribed :: slab where
  "child_killed_subscribed = subscribeRecord child_killed obs_R"

text \<open>
  The same state reached without a call of \<open>killMemo\<close> by the client: a parent \<open>q1\<close>
  and its child \<open>d2\<close> that want one replica; the parent is read, so the child is the
  LRU head; two more puts reach the limit and evict the child; the reactions run.
\<close>

definition q1 :: memo where "q1 = mk_memo ''q1'' ''R'' [] 1"
definition d2 :: memo where "d2 = mk_memo ''d2'' ''R'' [''q1''] 1"

definition child_evicted :: slab where
  "child_evicted =
     settle (putMemo (putMemo (snd (getMemo (putMemo (putMemo slab_A q1) d2) ''q1'')) m3) m4)"

definition child_evicted_subscribed :: slab where
  "child_evicted_subscribed = subscribeRecord child_evicted obs_R"

text \<open>The parent, its child and a memo of another record: three puts, below the limit.\<close>

definition two_records :: slab where
  "two_records = putMemo (putMemo (putMemo slab_A p1) c2) m3"

section \<open>Properties\<close>

subsection \<open>Construction\<close>

lemma Slab_keeps_increment: "fst (Slab inc a) = inc"
  by (simp add: Slab_def)

lemma Slab_args_A: "Slab 0 (Some args_A) = (0, Inr slab_A)"
  by (simp add: Slab_def args_A_def slab_A_def truthy_str_def truthy_num_def or_default_def)

text \<open>
  C8 (the cap of 1296 slabs per process is enforced). The constructor compares
  \<open>slab_increment\<close> with 1296 and never increments it, so the guard cannot fire: any
  number \<open>n\<close> of constructions in one process, 1297 and more included, all succeed and
  leave \<open>slab_increment\<close> at 0.
\<close>

theorem slab_cap_never_enforced:
  "construct_slabs 0 (replicate n (Some args_A)) = (0, replicate n (Inr slab_A))"
  by (induction n) (simp_all add: Slab_args_A)

subsection \<open>What the steps of a put leave alone\<close>

text \<open>
  The replication check, the eviction calls and the peering registration change
  neither \<open>memos_by_id\<close> nor \<open>size\<close>: an eviction removes nothing before its reaction
  runs.
\<close>

lemma checkMemoReplicationFactor_frame:
  "memos_by_id (snd (checkMemoReplicationFactor s memo)) = memos_by_id s"
  "slab_size (snd (checkMemoReplicationFactor s memo)) = slab_size s"
  "newer (snd (checkMemoReplicationFactor s memo)) = newer s"
  "jobs (snd (checkMemoReplicationFactor s memo)) = jobs s"
  by (simp_all add: checkMemoReplicationFactor_def Let_def split: option.splits)

lemma evictMemo_frame:
  "memos_by_id (snd (evictMemo s a)) = memos_by_id s"
  "slab_size (snd (evictMemo s a)) = slab_size s"
  "newer (snd (evictMemo s a)) = newer s"
  by (simp_all add: evictMemo_def Let_def case_prod_beta checkMemoReplicationFactor_frame split: option.splits)

lemma evict_loop_frame:
  "memos_by_id (evict_loop ct m s) = memos_by_id s \<and> slab_size (evict_loop ct m s) = slab_size s"
  by (induction ct m s rule: evict_loop.induct) (simp_all add: Let_def evictMemo_frame)

lemma evictMemos_frame:
  "memos_by_id (evictMemos s) = memos_by_id s" "slab_size (evictMemos s) = slab_size s"
  by (simp_all add: evictMemos_def Let_def evict_loop_frame)

lemma update_refs_frame:
  "memos_by_id (fst (update_refs m ps (s, ch))) = memos_by_id s
   \<and> slab_size (fst (update_refs m ps (s, ch))) = slab_size s"
  by (induction m ps "(s, ch)" arbitrary: s ch rule: update_refs.induct)
     (simp_all add: Let_def case_prod_beta)

lemma registerMemoPeering_frame:
  "memos_by_id (registerMemoPeering s memo r rs st sil) = memos_by_id s"
  "slab_size (registerMemoPeering s memo r rs st sil) = slab_size s"
  using update_refs_frame [of "memo_id memo" "[(r, [(rs, st)])]"]
  by (simp_all add: registerMemoPeering_def updateMemoPeerings_def Let_def case_prod_beta)

lemma putMemo_stores:
  "memos_by_id (putMemo s memo) (memo_id memo) \<noteq> None"
proof (cases "memos_by_id s (memo_id memo)")
  case None
  then have "memos_by_id (putMemo s memo) = (memos_by_id s)(memo_id memo \<mapsto> memo)"
    by (simp add: putMemo_def Let_def case_prod_beta checkMemoReplicationFactor_frame
          registerMemoPeering_frame evictMemos_frame split: option.splits)
  then show ?thesis by simp
next
  case (Some m)
  then show ?thesis by (simp add: putMemo_def)
qed

subsection \<open>Put of a resident memo\<close>

text \<open>
  C5 (put is idempotent). When the id of the memo is a key of \<open>memos_by_id\<close>,
  \<open>putMemo\<close> returns the slab as it was: the size, the LRU links, the three indexes and
  the peering registry are the same, and so are the recorded calls (no observer was
  notified, the mesh was not called) and the queued reactions (no replication check).
\<close>

theorem putMemo_resident_noop:
  "memos_by_id s (memo_id memo) \<noteq> None \<Longrightarrow> putMemo s memo = s"
  by (simp add: putMemo_def)

theorem putMemo_resident_noop_witness:
  "memos_by_id (putMemo slab_A m1) (memo_id m1) \<noteq> None
   \<and> putMemo (putMemo slab_A m1) m1 = putMemo slab_A m1"
proof -
  have resident: "memos_by_id (putMemo slab_A m1) (memo_id m1) \<noteq> None"
    by code_simp
  from resident putMemo_resident_noop [OF resident] show ?thesis
    by simp
qed

text \<open>So, from any slab, the second of two puts of the same memo changes nothing.\<close>

lemma putMemo_twice: "putMemo (putMemo s memo) memo = putMemo s memo"
  using putMemo_stores [of s memo] by (simp add: putMemo_def [of "putMemo s memo"])

subsection \<open>Unknown memo ids\<close>




subsection \<open>Kill of a memo that has parents\<close>

text \<open>
  Whatever the slab, the kill of a resident memo that is not protected and has a parent
  ends in the TypeError of the first round over its parents: the memo has left
  \<open>memos_by_id\<close> and the list of its record, and \<open>memo_ids_by_parent\<close>, the peering
  registry, the LRU links and \<open>size\<close> are as before.
\<close>

lemma killMemo_with_parents_throws:
  assumes "memos_by_id s (memo_id memo) \<noteq> None"
    and "records_by_id s (rid memo) = None \<or> truthy_str (memo_ids_by_parent s (memo_id memo))"
    and "memo_ids_by_record s (rid memo) = Some mbr"
    and "parents memo \<noteq> []"
  shows "killMemo s (ByObj memo) =
          (Kill_threw TypeError,
           s\<lparr>memos_by_id := (memos_by_id s)(memo_id memo := None),
             memo_ids_by_record :=
               (memo_ids_by_record s)(rid memo \<mapsto> splice_indexOf (memo_id memo) mbr)\<rparr>)"
proof -
  from assms(4) obtain p ps where ps: "parents memo = p # ps"
    by (cases "parents memo") auto
  have "kill_parents memo (p # ps) s' = (Some TypeError, s')" for s'
    by (simp add: kill_parent_def split: option.splits)
  with assms(1-3) ps show ?thesis
    by (auto simp: killMemo_def resolve_def Let_def)
qed

text \<open>
  C1 (kill updates all three indexes, for a memo that has parents). On the slab that
  holds \<open>p1\<close> and its child \<open>c2\<close> (record \<open>R\<close>, no subscriber), \<open>c2\<close> is resident, not
  protected, and recorded as the child of \<open>p1\<close>. \<open>killMemo c2\<close> throws a TypeError:
  \<open>c2\<close> has left \<open>memos_by_id\<close> and the list of record \<open>R\<close>, but
  \<open>memo_ids_by_parent\<close> still maps \<open>p1\<close> to \<open>c2\<close>; the peering of \<open>c2\<close>, its place at the
  LRU tail and the size 2 are left as well.
\<close>

theorem kill_child_throws_and_keeps_parent_entry:
  "memos_by_id parent_child ''c2'' = Some c2 \<and> parents c2 = [''p1'']
   \<and> records_by_id parent_child ''R'' = None
   \<and> memo_ids_by_parent parent_child ''p1'' = Some ''c2''
   \<and> fst (killMemo parent_child (ByObj c2)) = Kill_threw TypeError
   \<and> memos_by_id child_killed ''c2'' = None
   \<and> memo_ids_by_record child_killed ''R'' = Some [''p1'']
   \<and> memo_ids_by_parent child_killed ''p1'' = Some ''c2''
   \<and> local_peerings child_killed ''c2'' = Some [''c2'']
   \<and> tail child_killed = Some c2 \<and> slab_size child_killed = 2"
  by code_simp

subsection \<open>The size counter\<close>

lemma dump_four_m:
  "dumpMemoIds (settle (four_puts m1 m2 m3 m4)) = Some [''m4'', ''m3'', ''m2'', ''m1'']"
  unfolding dumpMemoIds_def
  apply (subst dump_loop.simps)
  apply (subst dump_loop.simps)
  apply (subst dump_loop.simps)
  apply (subst dump_loop.simps)
  apply (subst dump_loop.simps)
  apply code_simp
  done

lemma dump_four_k:
  "dumpMemoIds (settle (four_puts k1 k2 k3 k4)) = Some [''k4'', ''k3'', ''k2'']"
  unfolding dumpMemoIds_def
  apply (subst dump_loop.simps)
  apply (subst dump_loop.simps)
  apply (subst dump_loop.simps)
  apply (subst dump_loop.simps)
  apply code_simp
  done

lemma four_m_settled:
  "slab_size (settle (four_puts m1 m2 m3 m4)) = 3
   \<and> memos_by_id (settle (four_puts m1 m2 m3 m4)) ''m1'' = Some m1
   \<and> memos_by_id (settle (four_puts m1 m2 m3 m4)) ''m2'' = Some m2
   \<and> memos_by_id (settle (four_puts m1 m2 m3 m4)) ''m3'' = Some m3
   \<and> memos_by_id (settle (four_puts m1 m2 m3 m4)) ''m4'' = Some m4
   \<and> lru_list (settle (four_puts m1 m2 m3 m4)) [m1, m2, m3, m4]
   \<and> jobs (settle (four_puts m1 m2 m3 m4)) = []"
  by code_simp

lemma four_k_settled:
  "slab_size (settle (four_puts k1 k2 k3 k4)) = 2
   \<and> memos_by_id (settle (four_puts k1 k2 k3 k4)) ''k1'' = None
   \<and> memos_by_id (settle (four_puts k1 k2 k3 k4)) ''k2'' = Some k2
   \<and> memos_by_id (settle (four_puts k1 k2 k3 k4)) ''k3'' = Some k3
   \<and> memos_by_id (settle (four_puts k1 k2 k3 k4)) ''k4'' = Some k4
   \<and> lru_list (settle (four_puts k1 k2 k3 k4)) [k2, k3, k4]
   \<and> jobs (settle (four_puts k1 k2 k3 k4)) = []"
  by code_simp

text \<open>
  In every slab whose \<open>size\<close> has reached \<open>limit\<close>, the put of a memo that is not
  resident adds the memo to \<open>memos_by_id\<close> and leaves \<open>size\<close> as it was.
\<close>

lemma putMemo_at_limit:
  assumes "memos_by_id s (memo_id memo) = None" and "slab_size s = limit s"
  shows "memos_by_id (putMemo s memo) = (memos_by_id s)(memo_id memo \<mapsto> memo)
         \<and> slab_size (putMemo s memo) = slab_size s"
  using assms
  by (simp add: putMemo_def Let_def case_prod_beta checkMemoReplicationFactor_frame registerMemoPeering_frame
        evictMemos_frame split: option.splits)

text \<open>
  C2 (\<open>size\<close> is the number of entries of \<open>memos_by_id\<close> and of linked memos, at
  every quiescent point). Four puts into the new slab of quota 2 and limit 3, then the
  queued reactions run. With \<open>desiredReplicas() = 0\<close>: \<open>size\<close> is 3 while \<open>m1\<close>, \<open>m2\<close>,
  \<open>m3\<close> and \<open>m4\<close> are all in \<open>memos_by_id\<close> and the LRU list links the four. With
  \<open>desiredReplicas() = 1\<close> the oldest memo is evicted: \<open>size\<close> is 2 while \<open>k2\<close>, \<open>k3\<close>
  and \<open>k4\<close> are in \<open>memos_by_id\<close> and the LRU list links the three. The fourth put
  found \<open>size = limit\<close> and did not count its memo.
\<close>

theorem size_misses_the_put_at_limit:
  "(slab_size (settle (four_puts m1 m2 m3 m4)) = 3
    \<and> memos_by_id (settle (four_puts m1 m2 m3 m4)) ''m1'' = Some m1
    \<and> memos_by_id (settle (four_puts m1 m2 m3 m4)) ''m2'' = Some m2
    \<and> memos_by_id (settle (four_puts m1 m2 m3 m4)) ''m3'' = Some m3
    \<and> memos_by_id (settle (four_puts m1 m2 m3 m4)) ''m4'' = Some m4
    \<and> lru_list (settle (four_puts m1 m2 m3 m4)) [m1, m2, m3, m4]
    \<and> dumpMemoIds (settle (four_puts m1 m2 m3 m4)) = Some [''m4'', ''m3'', ''m2'', ''m1'']
    \<and> jobs (settle (four_puts m1 m2 m3 m4)) = [])
   \<and> (slab_size (settle (four_puts k1 k2 k3 k4)) = 2
    \<and> memos_by_id (settle (four_puts k1 k2 k3 k4)) ''k1'' = None
    \<and> memos_by_id (settle (four_puts k1 k2 k3 k4)) ''k2'' = Some k2
    \<and> memos_by_id (settle (four_puts k1 k2 k3 k4)) ''k3'' = Some k3
    \<and> memos_by_id (settle (four_puts k1 k2 k3 k4)) ''k4'' = Some k4
    \<and> lru_list (settle (four_puts k1 k2 k3 k4)) [k2, k3, k4]
    \<and> dumpMemoIds (settle (four_puts k1 k2 k3 k4)) = Some [''k4'', ''k3'', ''k2'']
    \<and> jobs (settle (four_puts k1 k2 k3 k4)) = [])"
  using four_m_settled four_k_settled dump_four_m dump_four_k by simp

subsection \<open>Eviction in the basic LRU scenario\<close>

lemma basic_lru_m2_resident: "memos_by_id (settle basic_lru) ''m2'' = Some m2"
  by code_simp

lemma basic_lru_residents_differ: "dom (memos_by_id (settle basic_lru)) \<noteq> {''m1'', ''m4''}"
proof
  assume eq: "dom (memos_by_id (settle basic_lru)) = {''m1'', ''m4''}"
  from basic_lru_m2_resident have "''m2'' \<in> dom (memos_by_id (settle basic_lru))"
    by blast
  with eq have "''m2'' \<in> {''m1'', ''m4''}" by simp
  then show False by simp
qed

lemma basic_lru_evaluated:
  "evicting_calls (calls basic_lru) = [m2]
   \<and> jobs basic_lru = [Put_catch Fulfilled_undefined, Put_catch Fulfilled_undefined,
        Put_catch Fulfilled_undefined, Evict_then Fulfilled_undefined m2,
        Put_catch Fulfilled_undefined]
   \<and> memos_by_id (settle basic_lru) ''m1'' = Some m1
   \<and> memos_by_id (settle basic_lru) ''m3'' = Some m3
   \<and> memos_by_id (settle basic_lru) ''m4'' = Some m4
   \<and> lru_list (settle basic_lru) [m2, m3, m1, m4]
   \<and> slab_size (settle basic_lru) = 3"
  by code_simp

text \<open>
  C3 (eviction from the head down to the quota; scenario 1 leaves exactly \<open>m1\<close> and
  \<open>m4\<close>). In the scenario, the put of \<open>m4\<close> finds \<open>size = limit = 3\<close> and calls
  \<open>evictMemos\<close>, which calls \<open>evictMemo\<close> on \<open>size - quota = 1\<close> memo, the head \<open>m2\<close>.
  The replication check of \<open>m2\<close> (\<open>desiredReplicas() = 0\<close>) is fulfilled with
  \<open>undefined\<close>, so the reaction does not kill it. After the reactions have run, all
  four memos are resident (the residents are not \<open>{m1, m4}\<close>), the LRU order is
  \<open>m2, m3, m1, m4\<close> and \<open>size\<close> is 3.
\<close>

theorem basic_lru_evicts_nothing:
  "evicting_calls (calls basic_lru) = [m2]
   \<and> jobs basic_lru = [Put_catch Fulfilled_undefined, Put_catch Fulfilled_undefined,
        Put_catch Fulfilled_undefined, Evict_then Fulfilled_undefined m2,
        Put_catch Fulfilled_undefined]
   \<and> memos_by_id (settle basic_lru) ''m1'' = Some m1
   \<and> memos_by_id (settle basic_lru) ''m2'' = Some m2
   \<and> memos_by_id (settle basic_lru) ''m3'' = Some m3
   \<and> memos_by_id (settle basic_lru) ''m4'' = Some m4
   \<and> dom (memos_by_id (settle basic_lru)) \<noteq> {''m1'', ''m4''}
   \<and> lru_list (settle basic_lru) [m2, m3, m1, m4]
   \<and> slab_size (settle basic_lru) = 3"
  using basic_lru_evaluated basic_lru_m2_resident basic_lru_residents_differ by simp

subsection \<open>The replication check of a memo that wants no replica\<close>

text \<open>
  Whenever \<open>ref_peerings\<close> knows the memo id (as it does after \<open>putMemo\<close>, which
  registers the memo with itself), the check asks the mesh for accepting slabs and
  pushes the memo to each slab the mesh names, whatever \<open>desiredReplicas()\<close> is.
\<close>

lemma checkMemoReplicationFactor_calls_mesh:
  assumes "ref_peerings s (memo_id memo) = Some r"
  shows "calls (snd (checkMemoReplicationFactor s memo)) =
          calls s
          @ [Mesh_getAcceptingSlabIDs
               (map fst (filter (\<lambda>(remote, st). st = 2) (remotes r)) @ [slab_id s])
               (desiredReplicas memo)]
          @ map (\<lambda>to_slab_id. Mesh_pushMemoToSlab (slab_id s) to_slab_id memo)
              (getAcceptingSlabIDs (mesh_of s)
                 (map fst (filter (\<lambda>(remote, st). st = 2) (remotes r)) @ [slab_id s])
                 (desiredReplicas memo))"
  using assms by (simp add: checkMemoReplicationFactor_def getMemoPeers_def Let_def)

text \<open>
  C4 (no mesh call when \<open>desiredReplicas() \<le> 0\<close>). \<open>m1\<close> wants 0 replicas and is
  resident in the slab after its put. Its replication check is fulfilled with
  \<open>undefined\<close> and calls \<open>mesh.getAcceptingSlabIDs(['A'], 0)\<close>; the put itself had made
  the same call.
\<close>

theorem check_calls_mesh_for_zero_replicas:
  "desiredReplicas m1 = 0
   \<and> memos_by_id (putMemo slab_A m1) ''m1'' = Some m1
   \<and> fst (checkMemoReplicationFactor (putMemo slab_A m1) m1) = Fulfilled_undefined
   \<and> calls (snd (checkMemoReplicationFactor (putMemo slab_A m1) m1))
       = calls (putMemo slab_A m1) @ [Mesh_getAcceptingSlabIDs [''A''] 0]
   \<and> calls (putMemo slab_A m1) = [Mesh_registerSlab ''A'', Mesh_getAcceptingSlabIDs [''A''] 0]"
  by code_simp

subsection \<open>Head memos\<close>

text \<open>
  The guard of \<open>killMemo\<close> reads the parent index: a resident memo of a subscribed
  record whose id has no (truthy) entry in \<open>memo_ids_by_parent\<close> is not killed, and the
  slab is unchanged.
\<close>

lemma killMemo_aborts_without_parent_entry:
  assumes "memos_by_id s (memo_id memo) \<noteq> None"
    and "records_by_id s (rid memo) \<noteq> None"
    and "\<not> truthy_str (memo_ids_by_parent s (memo_id memo))"
  shows "killMemo s (ByObj memo) = (Kill_aborted, s)"
  using assms by (simp add: killMemo_def resolve_def)

text \<open>
  C6 (the head memo of a subscribed record is not killed). After the kill of \<open>c2\<close>
  above, record \<open>R\<close> is subscribed. \<open>p1\<close> is resident, \<open>c2\<close>, the only memo that cites
  \<open>p1\<close>, is not, so \<open>p1\<close> is a head memo of the subscribed record \<open>R\<close>. \<open>killMemo p1\<close>
  does not abort: the entry \<open>p1 \<mapsto> c2\<close> that the kill of \<open>c2\<close> left in
  \<open>memo_ids_by_parent\<close> passes the guard, and \<open>p1\<close> is removed. The same happens to
  \<open>q1\<close> after the eviction of its child \<open>d2\<close>, where the TypeError of the kill stays
  inside the promise reaction.
\<close>

theorem kill_removes_head_of_subscribed_record:
  "(records_by_id child_killed_subscribed ''R'' = Some [obs_R]
    \<and> memos_by_id child_killed_subscribed ''p1'' = Some p1 \<and> rid p1 = ''R''
    \<and> memos_by_id child_killed_subscribed ''c2'' = None
    \<and> memo_ids_by_record child_killed_subscribed ''R'' = Some [''p1'']
    \<and> memo_ids_by_parent child_killed_subscribed ''p1'' = Some ''c2''
    \<and> fst (killMemo child_killed_subscribed (ByObj p1)) = Kill_done
    \<and> memos_by_id (snd (killMemo child_killed_subscribed (ByObj p1))) ''p1'' = None
    \<and> memo_ids_by_record (snd (killMemo child_killed_subscribed (ByObj p1))) ''R'' = Some []
    \<and> slab_size (snd (killMemo child_killed_subscribed (ByObj p1))) = 1)
   \<and> (records_by_id child_evicted_subscribed ''R'' = Some [obs_R]
    \<and> memos_by_id child_evicted_subscribed ''q1'' = Some q1 \<and> rid q1 = ''R''
    \<and> memos_by_id child_evicted_subscribed ''d2'' = None
    \<and> memo_ids_by_record child_evicted_subscribed ''R'' = Some [''q1'']
    \<and> jobs child_evicted_subscribed = []
    \<and> fst (killMemo child_evicted_subscribed (ByObj q1)) = Kill_done
    \<and> memos_by_id (snd (killMemo child_evicted_subscribed (ByObj q1))) ''q1'' = None)"
  by code_simp

text \<open>
  C9 (the head ids of a record are its resident memos that no resident memo cites).
  After the kill of \<open>c2\<close> above, \<open>p1\<close> is the one resident memo of record \<open>R\<close> and
  \<open>c2\<close>, the only memo that cites it, is not resident; \<open>getHeadMemoIDsForRecord R\<close>
  returns the empty list, because \<open>memo_ids_by_parent\<close> still maps \<open>p1\<close> to \<open>c2\<close>.
  Before the kill it returns \<open>[c2]\<close>. The same holds for \<open>q1\<close> after the eviction of
  its child \<open>d2\<close>.
\<close>

theorem heads_miss_parent_of_killed_child:
  "(memos_by_id child_killed ''p1'' = Some p1 \<and> rid p1 = ''R''
    \<and> memos_by_id child_killed ''c2'' = None
    \<and> memo_ids_by_record child_killed ''R'' = Some [''p1'']
    \<and> memo_ids_by_parent child_killed ''p1'' = Some ''c2''
    \<and> fst (getHeadMemoIDsForRecord child_killed ''R'') = Inr []
    \<and> fst (getHeadMemoIDsForRecord parent_child ''R'') = Inr [''c2''])
   \<and> (memos_by_id child_evicted ''q1'' = Some q1 \<and> rid q1 = ''R''
    \<and> memos_by_id child_evicted ''d2'' = None
    \<and> memo_ids_by_record child_evicted ''R'' = Some [''q1'']
    \<and> memo_ids_by_parent child_evicted ''q1'' = Some ''d2''
    \<and> evicting_calls (calls child_evicted) = [d2]
    \<and> jobs child_evicted = []
    \<and> fst (getHeadMemoIDsForRecord child_evicted ''R'') = Inr [])"
  by code_simp

subsection \<open>The head query promotes\<close>

lemma chain_append:
  "chain f (xs @ ys) =
     (chain f xs \<and> chain f ys \<and> (xs \<noteq> [] \<and> ys \<noteq> [] \<longrightarrow> f (last xs) = Some (hd ys)))"
proof (induction f xs rule: chain.induct)
  case (1 f)
  then show ?case by simp
next
  case (2 f x)
  then show ?case by (cases ys) auto
next
  case (3 f x y zs)
  then show ?case by auto
qed

lemma chain_upd:
  "a \<notin> set (butlast xs) \<Longrightarrow> chain (f(a := v)) xs = chain f xs"
  by (induction f xs rule: chain.induct) (auto split: if_splits)

lemma chain_Cons:
  "chain f (x # xs) = (chain f xs \<and> (xs \<noteq> [] \<longrightarrow> f x = Some (hd xs)))"
  using chain_append [of f "[x]" xs] by simp

lemma first_opt_simps [simp]:
  "first_opt [] = None" "first_opt (x # xs) = Some x"
  by (simp_all add: first_opt_def)

lemma first_opt_rev: "first_opt (rev xs) = (if xs = [] then None else Some (last xs))"
  by (cases xs rule: rev_cases) (simp_all)

lemma first_opt_hd: "first_opt xs = (if xs = [] then None else Some (hd xs))"
  by (cases xs) simp_all

lemma getMemo_fields [simp]:
  "memos_by_id (snd (getMemo s i)) = memos_by_id s"
  "memo_ids_by_parent (snd (getMemo s i)) = memo_ids_by_parent s"
  "memo_ids_by_record (snd (getMemo s i)) = memo_ids_by_record s"
  "records_by_id (snd (getMemo s i)) = records_by_id s"
  "slab_size (snd (getMemo s i)) = slab_size s"
  "quota (snd (getMemo s i)) = quota s"
  "limit (snd (getMemo s i)) = limit s"
  "calls (snd (getMemo s i)) = calls s"
  "jobs (snd (getMemo s i)) = jobs s"
  "local_peerings (snd (getMemo s i)) = local_peerings s"
  "ref_peerings (snd (getMemo s i)) = ref_peerings s"
  "fst (getMemo s i) = memos_by_id s i"
  by (simp_all add: getMemo_def Let_def split: option.splits)

lemma getMemo_tail_case:
  "memos_by_id s i = Some m \<Longrightarrow> tail s = Some m \<Longrightarrow> getMemo s i = (Some m, s)"
  by (simp add: getMemo_def)


lemma getMemo_links:
  assumes "memos_by_id s i = Some m" "tail s = Some z" "z \<noteq> m" "newer s m = Some n" "n \<noteq> m"
  shows "tail (snd (getMemo s i)) = Some m"
    and "head (snd (getMemo s i)) = (if head s = Some m then Some n else head s)"
    and "newer (snd (getMemo s i)) =
           (case older s m of None \<Rightarrow> newer s | Some a \<Rightarrow> (newer s)(a \<mapsto> n))(m := None, z \<mapsto> m)"
    and "older (snd (getMemo s i)) = (older s)(n := older s m, m := Some z)"
  using assms by (auto simp: getMemo_def Let_def split: option.splits)

lemma distinct_last_notin_butlast:
  "distinct xs \<Longrightarrow> xs \<noteq> [] \<Longrightarrow> last xs \<notin> set (butlast xs)"
  by (cases xs rule: rev_cases) auto

lemma notin_butlast: "x \<notin> set xs \<Longrightarrow> x \<notin> set (butlast xs)"
  by (auto dest: in_set_butlastD)

lemma getMemo_promote_head:
  assumes l: "lru_list s (m # cs @ [z])" and r: "memos_by_id s i = Some m"
  shows "lru_list (snd (getMemo s i)) (cs @ [z, m])"
proof -
  define n where "n = hd (cs @ [z])"
  from l have d: "distinct (m # cs @ [z])" by (simp add: lru_list_def)
  then have zm: "z \<noteq> m" and mcs: "m \<notin> set cs" and zcs: "z \<notin> set cs" and dcs: "distinct cs" by auto
  have nm: "n \<noteq> m" using d by (cases cs) (auto simp: n_def)
  from l have tl: "tail s = Some z" and hd: "head s = Some m"
    by (simp_all add: lru_list_def first_opt_rev)
  from l have nw: "newer s m = Some n"
    by (simp add: lru_list_def chain_Cons n_def)
  from l have od: "older s m = None"
    by (simp add: lru_list_def ends_at_def)
  from l have cn: "chain (newer s) (cs @ [z])"
    by (simp add: lru_list_def chain_Cons)
  from l have "chain (older s) ((z # rev cs) @ [m])"
    by (simp add: lru_list_def)
  then have co: "chain (older s) (z # rev cs)"
    unfolding chain_append by simp
  note links = getMemo_links [OF r tl zm nw nm]
  have nlast: "n = last (z # rev cs)" by (cases cs) (simp_all add: n_def)
  have nb: "n \<notin> set (butlast (z # rev cs))"
    unfolding nlast using d by (intro distinct_last_notin_butlast) auto
  have mb: "m \<notin> set (butlast (z # rev cs))"
  proof
    assume "m \<in> set (butlast (z # rev cs))"
    then have "m \<in> set (z # rev cs)" by (rule in_set_butlastD)
    with zm mcs show False by simp
  qed
  show ?thesis
    unfolding lru_list_def
  proof (intro conjI)
    show "distinct (cs @ [z, m])" using d by auto
    show "head (snd (getMemo s i)) = first_opt (cs @ [z, m])"
      by (cases cs) (simp_all add: links hd n_def)
    show "tail (snd (getMemo s i)) = first_opt (rev (cs @ [z, m]))"
      by (simp add: links)
    have c1: "chain ((newer s)(m := None, z \<mapsto> m)) (cs @ [z])"
      using cn mcs zcs by (simp add: chain_upd)
    have "chain ((newer s)(m := None, z \<mapsto> m)) ((cs @ [z]) @ [m])"
      unfolding chain_append [of _ "cs @ [z]" "[m]"] using c1 by simp
    then show "chain (newer (snd (getMemo s i))) (cs @ [z, m])"
      by (simp add: links od)
    show "ends_at (newer (snd (getMemo s i))) (first_opt (rev (cs @ [z, m])))"
      using zm by (simp add: links ends_at_def)
    have c2: "chain ((older s)(n := None, m \<mapsto> z)) (z # rev cs)"
      using co nb mb by (simp add: chain_upd del: butlast.simps)
    have "chain ((older s)(n := None, m \<mapsto> z)) (m # z # rev cs)"
      unfolding chain_Cons [of _ m] using c2 by simp
    then show "chain (older (snd (getMemo s i))) (rev (cs @ [z, m]))"
      by (simp add: links od)
    show "ends_at (older (snd (getMemo s i))) (first_opt (cs @ [z, m]))"
      using nm by (cases cs) (simp_all add: links od ends_at_def n_def)
  qed
qed


lemma getMemo_promote_inner:
  assumes l: "lru_list s (bs @ a # m # cs @ [z])" and r: "memos_by_id s i = Some m"
  shows "lru_list (snd (getMemo s i)) (bs @ a # cs @ [z, m])"
proof -
  define n where "n = hd (cs @ [z])"
  define h where "h = hd (bs @ [a])"
  from l have d: "distinct (bs @ a # m # cs @ [z])" by (simp add: lru_list_def)
  then have zm: "z \<noteq> m" and am: "a \<noteq> m" and az: "a \<noteq> z"
    and mcs: "m \<notin> set cs" and zcs: "z \<notin> set cs" and acs: "a \<notin> set cs"
    and mbs: "m \<notin> set bs" and zbs: "z \<notin> set bs" and abs: "a \<notin> set bs"
    and dis: "set bs \<inter> set cs = {}"
    by auto
  have nin: "n \<in> set (cs @ [z])" unfolding n_def by (rule hd_in_set) simp
  have hin: "h \<in> set (bs @ [a])" unfolding h_def by (rule hd_in_set) simp
  have nm: "n \<noteq> m" using nin mcs zm by auto
  have na: "n \<noteq> a" using nin acs az by auto
  have nbs: "n \<notin> set bs" using nin dis zbs by auto
  have hm: "h \<noteq> m" using hin mbs am by auto
  have hn: "h \<noteq> n" using hin nbs na by auto
  have hh: "hd (bs @ a # ys) = h" for ys by (cases bs) (simp_all add: h_def)
  from l have tl: "tail s = Some z" and hd: "head s = Some h"
    by (simp_all add: lru_list_def first_opt_rev first_opt_hd hh)
  from l have "chain (newer s) ((bs @ [a]) @ m # cs @ [z])"
    by (simp add: lru_list_def)
  then have cn1: "chain (newer s) (bs @ [a])" and cn2: "chain (newer s) (m # cs @ [z])"
    unfolding chain_append by simp_all
  from cn2 have nw: "newer s m = Some n" and cn3: "chain (newer s) (cs @ [z])"
    by (simp_all add: chain_Cons n_def)
  from l have "chain (older s) ((z # rev cs) @ m # a # rev bs)"
    by (simp add: lru_list_def)
  then have co1: "chain (older s) (z # rev cs)" and co2: "chain (older s) (m # a # rev bs)"
    unfolding chain_append by simp_all
  from co2 have od: "older s m = Some a" and co3: "chain (older s) (a # rev bs)"
    by (simp_all add: chain_Cons)
  from l have oh: "older s h = None"
    by (simp add: lru_list_def ends_at_def first_opt_hd hh)
  note links = getMemo_links [OF r tl zm nw nm]
  have nlast: "n = last (z # rev cs)" by (cases cs) (simp_all add: n_def)
  have nb: "n \<notin> set (butlast (z # rev cs))"
    unfolding nlast using d by (intro distinct_last_notin_butlast) auto
  have mb: "m \<notin> set (butlast (z # rev cs))"
  proof
    assume "m \<in> set (butlast (z # rev cs))"
    then have "m \<in> set (z # rev cs)" by (rule in_set_butlastD)
    with zm mcs show False by simp
  qed
  define Nw where "Nw = (newer s)(a \<mapsto> n, m := None, z \<mapsto> m)"
  define Ol where "Ol = (older s)(n \<mapsto> a, m \<mapsto> z)"
  have lN: "newer (snd (getMemo s i)) = Nw" by (simp add: links od Nw_def)
  have lO: "older (snd (getMemo s i)) = Ol" by (simp add: links od Ol_def)
  have c1: "chain Nw (bs @ [a])"
    unfolding Nw_def using cn1 abs mbs zbs by (simp add: chain_upd)
  have c2: "chain Nw (cs @ [z])"
    unfolding Nw_def using cn3 acs mcs zcs by (simp add: chain_upd)
  have nh: "hd (cs @ z # ys) = n" for ys by (cases cs) (simp_all add: n_def)
  have e1: "Nw a = Some n" using am az by (simp add: Nw_def)
  have e2: "Nw z = Some m" by (simp add: Nw_def)
  have e0: "Nw m = None" using zm by (simp add: Nw_def)
  have c3: "chain Ol (z # rev cs)"
    unfolding Ol_def using co1 nb mb by (simp add: chain_upd del: butlast.simps)
  have c4: "chain Ol (a # rev bs)"
  proof -
    have "n \<notin> set (a # rev bs)" and "m \<notin> set (a # rev bs)"
      using na nbs am mbs by auto
    then have "n \<notin> set (butlast (a # rev bs))" and "m \<notin> set (butlast (a # rev bs))"
      by (simp_all only: notin_butlast not_False_eq_True)
    with co3 show ?thesis unfolding Ol_def by (simp add: chain_upd del: butlast.simps)
  qed
  have e3: "Ol (last (z # rev cs)) = Some a"
    unfolding nlast [symmetric] using nm by (simp add: Ol_def)
  have e4: "Ol m = Some z" by (simp add: Ol_def)
  have e5: "Ol h = None" using oh hm hn by (simp add: Ol_def)
  have n1: "chain Nw ((cs @ [z]) @ [m])"
    using chain_append [of Nw "cs @ [z]" "[m]"] c2 e2 by simp
  have n2: "chain Nw ((bs @ [a]) @ ((cs @ [z]) @ [m]))"
    using chain_append [of Nw "bs @ [a]" "(cs @ [z]) @ [m]"] c1 n1 e1 by (simp add: nh)
  have o1: "chain Ol ((z # rev cs) @ (a # rev bs))"
    using chain_append [of Ol "z # rev cs" "a # rev bs"] c3 c4 e3 by simp
  have o2: "chain Ol (m # (z # rev cs) @ (a # rev bs))"
    using chain_Cons [of Ol m "(z # rev cs) @ (a # rev bs)"] o1 e4 by simp
  show ?thesis
    unfolding lru_list_def lN lO
  proof (intro conjI)
    show "distinct (bs @ a # cs @ [z, m])" using d by auto
    show "head (snd (getMemo s i)) = first_opt (bs @ a # cs @ [z, m])"
      using hm by (simp add: links hd first_opt_hd hh)
    show "tail (snd (getMemo s i)) = first_opt (rev (bs @ a # cs @ [z, m]))"
      by (simp add: links)
    show "chain Nw (bs @ a # cs @ [z, m])" using n2 by simp
    show "ends_at Nw (first_opt (rev (bs @ a # cs @ [z, m])))"
      using e0 by (simp add: ends_at_def)
    show "chain Ol (rev (bs @ a # cs @ [z, m]))" using o2 by simp
    show "ends_at Ol (first_opt (bs @ a # cs @ [z, m]))"
      using e5 by (simp add: ends_at_def first_opt_hd hh)
  qed
qed

lemma getMemo_promote:
  assumes l: "lru_list s xs" and r: "memos_by_id s i = Some m" and m: "m \<in> set xs"
  shows "lru_list (snd (getMemo s i)) (remove1 m xs @ [m])"
proof -
  from m obtain as bs where xs: "xs = as @ m # bs" by (auto simp: in_set_conv_decomp)
  from l have d: "distinct xs" by (simp add: lru_list_def)
  with xs have nas: "m \<notin> set as" and nbs: "m \<notin> set bs" by auto
  have rm: "remove1 m xs = as @ bs" using xs nas by (simp add: remove1_append)
  show ?thesis
  proof (cases bs rule: rev_cases)
    case Nil
    with l xs have "tail s = Some m" by (simp add: lru_list_def first_opt_rev)
    with r have "getMemo s i = (Some m, s)" by (rule getMemo_tail_case)
    with l xs Nil rm show ?thesis by simp
  next
    case (snoc cs z)
    show ?thesis
    proof (cases as rule: rev_cases)
      case Nil
      with l xs snoc have "lru_list s (m # cs @ [z])" by simp
      from getMemo_promote_head [OF this r] show ?thesis
        using rm Nil snoc by simp
    next
      case (snoc ds a)
      with l xs \<open>bs = cs @ [z]\<close> have "lru_list s (ds @ a # m # cs @ [z])" by simp
      from getMemo_promote_inner [OF this r] show ?thesis
        using rm snoc \<open>bs = cs @ [z]\<close> by simp
    qed
  qed
qed


lemma getMemo_resident:
  "memos_by_id s i = Some m \<Longrightarrow> getMemo s i = (Some m, snd (getMemo s i))"
  by (simp add: getMemo_def Let_def)

lemma first_opt_rev_append: "ms \<noteq> [] \<Longrightarrow> first_opt (rev ms @ ys) = Some (last ms)"
  by (cases ms rule: rev_cases) simp_all

lemma head_loop_promotes:
  assumes "lru_list s xs"
    and "distinct (map memo_id ms)"
    and "\<forall>m \<in> set ms. memos_by_id s (memo_id m) = Some m \<and> m \<in> set xs"
  shows "fst (head_loop (map memo_id ms) hs s)
           = Inr (hs @ filter (\<lambda>m. \<not> truthy_str (memo_ids_by_parent s (memo_id m))) ms)
         \<and> lru_list (snd (head_loop (map memo_id ms) hs s)) (filter (\<lambda>x. x \<notin> set ms) xs @ ms)
         \<and> memos_by_id (snd (head_loop (map memo_id ms) hs s)) = memos_by_id s
         \<and> memo_ids_by_parent (snd (head_loop (map memo_id ms) hs s)) = memo_ids_by_parent s"
  using assms
proof (induction ms arbitrary: s xs hs)
  case Nil
  then show ?case by simp
next
  case (Cons m ms)
  let ?s1 = "snd (getMemo s (memo_id m))"
  let ?xs1 = "remove1 m xs @ [m]"
  from Cons.prems have r: "memos_by_id s (memo_id m) = Some m" and mx: "m \<in> set xs"
    by simp_all
  from Cons.prems have dx: "distinct xs" by (simp add: lru_list_def)
  have l1: "lru_list ?s1 ?xs1" using Cons.prems(1) r mx by (rule getMemo_promote)
  have d1: "distinct (map memo_id ms)" using Cons.prems(2) by simp
  have sx: "set ?xs1 = set xs" using mx dx by (auto simp: set_remove1_eq)
  have a1: "\<forall>m' \<in> set ms. memos_by_id ?s1 (memo_id m') = Some m' \<and> m' \<in> set ?xs1"
    using Cons.prems(3) unfolding sx by simp
  have mn: "m \<notin> set ms" using Cons.prems(2) by auto
  note ih = Cons.IH [OF l1 d1 a1]
  have rm: "remove1 m xs = filter (\<lambda>x. x \<noteq> m) xs"
    using dx by (simp add: distinct_remove1_removeAll removeAll_filter_not_eq) metis
  have fl: "filter (\<lambda>x. x \<notin> set ms) ?xs1 @ ms = filter (\<lambda>x. x \<notin> set (m # ms)) xs @ m # ms"
    using mn by (simp add: rm conj_commute)
  define hs1 where "hs1 = (if truthy_str (memo_ids_by_parent s (memo_id m)) then hs else hs @ [m])"
  have step: "head_loop (map memo_id (m # ms)) hs s = head_loop (map memo_id ms) hs1 ?s1"
    by (simp add: case_prod_beta r hs1_def)
  have hd: "hs1 @ filter (\<lambda>m. \<not> truthy_str (memo_ids_by_parent s (memo_id m))) ms
            = hs @ filter (\<lambda>m. \<not> truthy_str (memo_ids_by_parent s (memo_id m))) (m # ms)"
    by (simp add: hs1_def)
  from ih [of hs1] show ?case
    unfolding step fl hd [symmetric] by simp
qed

text \<open>
  C10 (\<open>getHeadMemosForRecord\<close> is not read-only). Let the LRU list of the slab be
  \<open>xs\<close>, and let \<open>ms\<close> be the memos of record \<open>r\<close> in the order of
  \<open>memo_ids_by_record\<close> (the insertion order), at least one, each resident under its id
  and linked in the LRU list. The query returns the memos of \<open>ms\<close> whose id has no
  entry in \<open>memo_ids_by_parent\<close>, and it moves every memo of \<open>ms\<close> to the tail, in that
  order: afterwards the LRU list is \<open>xs\<close> without the memos of \<open>ms\<close>, followed by
  \<open>ms\<close>. So the last memo of the record is the most recently used, and the memos of
  other records now come first, nearer to eviction.
\<close>

theorem getHeadMemosForRecord_promotes:
  assumes "lru_list s xs"
    and "memo_ids_by_record s r = Some (map memo_id ms)"
    and "ms \<noteq> []"
    and "distinct (map memo_id ms)"
    and "\<forall>m \<in> set ms. memos_by_id s (memo_id m) = Some m \<and> m \<in> set xs"
  shows "fst (getHeadMemosForRecord s r)
           = Inr (filter (\<lambda>m. \<not> truthy_str (memo_ids_by_parent s (memo_id m))) ms)
         \<and> lru_list (snd (getHeadMemosForRecord s r)) (filter (\<lambda>x. x \<notin> set ms) xs @ ms)
         \<and> tail (snd (getHeadMemosForRecord s r)) = Some (last ms)"
proof -
  have eq: "getHeadMemosForRecord s r = head_loop (map memo_id ms) [] s"
    using assms(2) by (simp add: getHeadMemosForRecord_def or_empty_def)
  from head_loop_promotes [OF assms(1,4,5), of "[]"]
  have h: "fst (head_loop (map memo_id ms) [] s)
           = Inr (filter (\<lambda>m. \<not> truthy_str (memo_ids_by_parent s (memo_id m))) ms)"
    and l: "lru_list (snd (head_loop (map memo_id ms) [] s)) (filter (\<lambda>x. x \<notin> set ms) xs @ ms)"
    by simp_all
  from l assms(3) have "tail (snd (head_loop (map memo_id ms) [] s)) = Some (last ms)"
    by (simp add: lru_list_def first_opt_rev_append)
  with h l show ?thesis unfolding eq by simp
qed

text \<open>
  An instance: with \<open>p1\<close>, \<open>c2\<close> (record \<open>R\<close>) and \<open>m3\<close> put in this order, the query
  for \<open>R\<close> returns \<open>c2\<close> and changes the LRU order from \<open>p1, c2, m3\<close> to \<open>m3, p1, c2\<close>.
\<close>

theorem getHeadMemosForRecord_promotes_witness:
  "lru_list two_records [p1, c2, m3]
   \<and> memo_ids_by_record two_records ''R'' = Some [''p1'', ''c2'']
   \<and> fst (getHeadMemosForRecord two_records ''R'') = Inr [c2]
   \<and> lru_list (snd (getHeadMemosForRecord two_records ''R'')) [m3, p1, c2]
   \<and> tail two_records = Some m3
   \<and> tail (snd (getHeadMemosForRecord two_records ''R'')) = Some c2"
proof -
  have l: "lru_list two_records [p1, c2, m3]" by code_simp
  have i: "memo_ids_by_record two_records ''R'' = Some (map memo_id [p1, c2])" by code_simp
  have n: "[p1, c2] \<noteq> []" by simp
  have d: "distinct (map memo_id [p1, c2])" by code_simp
  have r1: "memos_by_id two_records (memo_id p1) = Some p1" by code_simp
  have r2: "memos_by_id two_records (memo_id c2) = Some c2" by code_simp
  have r: "\<forall>m \<in> set [p1, c2]. memos_by_id two_records (memo_id m) = Some m \<and> m \<in> set [p1, c2, m3]"
    using r1 r2 by simp
  have f1: "filter (\<lambda>m. \<not> truthy_str (memo_ids_by_parent two_records (memo_id m))) [p1, c2] = [c2]"
    by code_simp
  have f2: "filter (\<lambda>x. x \<notin> set [p1, c2]) [p1, c2, m3] @ [p1, c2] = [m3, p1, c2]"
    by code_simp
  have t: "tail two_records = Some m3" by code_simp
  have i': "memo_ids_by_record two_records ''R'' = Some [''p1'', ''c2'']" by code_simp
  from getHeadMemosForRecord_promotes [OF l i n d r] l i' t show ?thesis
    unfolding f1 f2 by simp
qed

end
